theory Spec2Isabelle
  imports Complex_Main "HOL-Library.Multiset"
begin

section \<open>Data model of \<^verbatim>\<open>kge/dataset.py\<close>\<close>

text \<open>
  A split (\<^verbatim>\<open>train\<close>, \<^verbatim>\<open>valid\<close>, \<^verbatim>\<open>test\<close>) is an \<open>(n,3)\<close> tensor of 32-bit integers: a list of
  rows, each row the three columns \<open>(s, p, o)\<close>. The indexing code only copies, compares
  and sorts the identifiers (as Python integers, after \<^verbatim>\<open>tolist()\<close>), and the classifier adds
  them up as floats, so they are modelled as \<open>int\<close>; nothing wraps around.
  An index is the \<^verbatim>\<open>OrderedDict\<close> returned by \<^verbatim>\<open>group_by_sp_po\<close>: an association list in
  insertion order, from a pair of identifiers to the tensor of completions.
\<close>

type_synonym triple = "int \<times> int \<times> int"

type_synonym pair_key = "int \<times> int"

type_synonym index = "(pair_key \<times> int list) list"

datatype error = ValueError | IndexError | RuntimeError | AttributeError

text \<open>Column \<open>c\<close> of a row (\<^verbatim>\<open>triples[:, c]\<close> takes it for every row); the code only uses the
  constant columns 0, 1 and 2.\<close>

fun col :: "nat \<Rightarrow> triple \<Rightarrow> int" where
  "col c (s, p, ob) = (if c = 0 then s else if c = 1 then p else ob)"

text \<open>\<^verbatim>\<open>triples[:, sp_po_cols]\<close> with \<^verbatim>\<open>sp_po_cols = [a, b]\<close>, and \<^verbatim>\<open>triples[:, value_column]\<close>.\<close>

definition select_cols :: "triple list \<Rightarrow> nat \<times> nat \<Rightarrow> pair_key list" where
  "select_cols triples ab = map (\<lambda>t. (col (fst ab) t, col (snd ab) t)) triples"

definition select_col :: "triple list \<Rightarrow> nat \<Rightarrow> int list" where
  "select_col triples c = map (col c) triples"

section \<open>The grouping builder \<^verbatim>\<open>group_by_sp_po\<close>\<close>

text \<open>
  \<^verbatim>\<open>result[tuple(sp_po)].append(o_s)\<close> on a \<^verbatim>\<open>defaultdict(list)\<close>: a key seen before gets the
  value appended to its list in place, a new key is inserted last with a one-element list.
\<close>

fun dict_append :: "('k \<times> 'v list) list \<Rightarrow> 'k \<Rightarrow> 'v \<Rightarrow> ('k \<times> 'v list) list" where
  "dict_append [] k v = [(k, [v])]"
| "dict_append ((k', vs) # rest) k v =
     (if k' = k then (k', vs @ [v]) # rest else (k', vs) # dict_append rest k v)"

text \<open>The first loop of \<^verbatim>\<open>group_by_sp_po\<close>, over the zipped rows, from a dictionary \<open>d\<close>.\<close>

fun group_rows :: "('k \<times> 'v list) list \<Rightarrow> ('k \<times> 'v) list \<Rightarrow> ('k \<times> 'v list) list" where
  "group_rows d [] = d"
| "group_rows d ((k, v) # rows) = group_rows (dict_append d k v) rows"

text \<open>
  The whole builder: the first loop from the empty dictionary, then every list replaced by
  \<^verbatim>\<open>torch.IntTensor(sorted(o_s))\<close>; \<^verbatim>\<open>OrderedDict(result)\<close> keeps the insertion order.
\<close>

definition group_by_sp_po :: "pair_key list \<Rightarrow> int list \<Rightarrow> index" where
  "group_by_sp_po sp_po_list o_s_list =
     map (\<lambda>(sp_po, o_s). (sp_po, sort o_s)) (group_rows [] (zip sp_po_list o_s_list))"

text \<open>What \<^verbatim>\<open>result[k]\<close> holds in a \<^verbatim>\<open>defaultdict(list)\<close>: the empty list for a key never
  inserted.\<close>

definition lookup_list :: "('k \<times> 'v list) list \<Rightarrow> 'k \<Rightarrow> 'v list" where
  "lookup_list d k = (case map_of d k of None \<Rightarrow> [] | Some vs \<Rightarrow> vs)"

text \<open>The two calls \<^verbatim>\<open>index_1toN\<close> makes of the builder, for \<^verbatim>\<open>sp\<close> and for \<^verbatim>\<open>po\<close>.\<close>

abbreviation sp_index :: "triple list \<Rightarrow> index" where
  "sp_index triples \<equiv> group_by_sp_po (select_cols triples (0, 1)) (select_col triples 2)"

abbreviation po_index :: "triple list \<Rightarrow> index" where
  "po_index triples \<equiv> group_by_sp_po (select_cols triples (1, 2)) (select_col triples 0)"

section \<open>The dataset and its index cache\<close>

text \<open>
  The fields of \<^verbatim>\<open>Dataset\<close>. \<^verbatim>\<open>config\<close> is used by the indexing code only through
  \<^verbatim>\<open>config.log\<close>, so it is modelled by the list of messages logged so far; the one message
  \<^verbatim>\<open>"{} distinct {} pairs in {}".format(len(index), sp_po, split)\<close> is kept as its three
  arguments. \<^verbatim>\<open>indexes\<close> is the dictionary from index name to index.
\<close>

type_synonym log_entry = "nat \<times> string \<times> string"

record dataset =
  config :: "log_entry list"
  num_entities :: nat
  entities :: "string list list"
  num_relations :: nat
  relations :: "string list list"
  train :: "triple list"
  train_meta :: "string list list"
  valid :: "triple list"
  valid_meta :: "string list list"
  test :: "triple list"
  test_meta :: "string list list"
  indexes :: "string \<rightharpoonup> index"
  relation_types :: "(nat \<times> string) list"
  relations_per_type :: "string \<rightharpoonup> nat set"

text \<open>The first \<^verbatim>\<open>if\<close> chain of \<^verbatim>\<open>index_1toN\<close>: the split's tensor, or \<^verbatim>\<open>ValueError\<close>.\<close>

definition select_split :: "dataset \<Rightarrow> string \<Rightarrow> error + triple list" where
  "select_split self split =
     (if split = ''train'' then Inr (train self)
      else if split = ''valid'' then Inr (valid self)
      else if split = ''test'' then Inr (test self)
      else Inl ValueError)"

text \<open>The second chain: \<^verbatim>\<open>(sp_po_cols, value_column)\<close>, or \<^verbatim>\<open>ValueError\<close>.\<close>

definition select_direction :: "string \<Rightarrow> error + ((nat \<times> nat) \<times> nat)" where
  "select_direction sp_po =
     (if sp_po = ''sp'' then Inr ((0, 1), 2)
      else if sp_po = ''po'' then Inr ((1, 2), 0)
      else Inl ValueError)"

text \<open>
  Python's truth value of \<^verbatim>\<open>self.indexes.get(name)\<close>: \<^verbatim>\<open>None\<close> (no entry) is false, and so is
  an entry that is an empty \<^verbatim>\<open>OrderedDict\<close>.
\<close>

fun truthy :: "index option \<Rightarrow> bool" where
  "truthy None = False"
| "truthy (Some idx) = (idx \<noteq> [])"

text \<open>The body of \<^verbatim>\<open>if not self.indexes.get(name):\<close>: build, store, log.\<close>

definition build_index :: "dataset \<Rightarrow> string \<Rightarrow> string \<Rightarrow> string \<Rightarrow> triple list \<Rightarrow>
    (nat \<times> nat) \<Rightarrow> nat \<Rightarrow> dataset" where
  "build_index self name split sp_po triples sp_po_cols value_column =
     (let idx = group_by_sp_po (select_cols triples sp_po_cols) (select_col triples value_column)
      in self\<lparr>indexes := (indexes self)(name \<mapsto> idx),
              config := config self @ [(length idx, sp_po, split)]\<rparr>)"

text \<open>
  \<^verbatim>\<open>index_1toN\<close> returns \<^verbatim>\<open>self.indexes.get(name)\<close> or raises; either way the dataset it
  leaves behind is the second component. An exception leaves what was mutated before it.
\<close>

definition index_1toN :: "dataset \<Rightarrow> string \<Rightarrow> string \<Rightarrow> (error + index option) \<times> dataset" where
  "index_1toN self split sp_po =
     (case select_split self split of
        Inl e \<Rightarrow> (Inl e, self)
      | Inr triples \<Rightarrow>
          (case select_direction sp_po of
             Inl e \<Rightarrow> (Inl e, self)
           | Inr (sp_po_cols, value_column) \<Rightarrow>
               (let name = split @ ''_'' @ sp_po;
                    self' = (if \<not> truthy (indexes self name)
                             then build_index self name split sp_po triples sp_po_cols value_column
                             else self)
                in (Inr (indexes self' name), self'))))"

section \<open>The compact view \<^verbatim>\<open>prepare_index\<close>\<close>

text \<open>
  \<^verbatim>\<open>torch.cat\<close> of a list of one-dimensional tensors is their concatenation; of the empty
  list it raises \<^verbatim>\<open>RuntimeError\<close> (``expected a non-empty list of Tensors'').
\<close>

definition torch_cat :: "int list list \<Rightarrow> error + int list" where
  "torch_cat tensors = (if tensors = [] then Inl RuntimeError else Inr (concat tensors))"

text \<open>\<^verbatim>\<open>torch.cumsum(t, 0)\<close>: element \<open>i\<close> is the sum of the elements up to and including \<open>i\<close>.
  The elements here are list lengths, so naturals; the tensor of lengths has 32-bit
  entries, which hold the length of any group of fewer than \<open>2^31\<close> completions exactly,
  and the sums are taken as they are.\<close>

fun cumsum_from :: "nat \<Rightarrow> nat list \<Rightarrow> nat list" where
  "cumsum_from acc [] = []"
| "cumsum_from acc (x # xs) = (acc + x) # cumsum_from (acc + x) xs"

definition torch_cumsum :: "nat list \<Rightarrow> nat list" where
  "torch_cumsum xs = cumsum_from 0 xs"

definition prepare_index :: "index \<Rightarrow> error + (pair_key list \<times> int list \<times> nat list)" where
  "prepare_index index =
     (let sp_po = map fst index in
      case torch_cat (map snd index) of
        Inl e \<Rightarrow> Inl e
      | Inr o_s \<Rightarrow>
          (let offsets = torch_cumsum ([0] @ map length (map snd index))
           in Inr (sp_po, o_s, offsets)))"


section \<open>The relation-type classifier \<^verbatim>\<open>_get_relation_types\<close>\<close>

text \<open>
  \<^verbatim>\<open>relation_stats\<close> is a \<open>(num_relations, 6)\<close> tensor of floats, a list of rows of six
  entries. Every entry the code stores is a whole number (a sum of identifiers, a count of
  groups, or a flag 0/1), so the entries are modelled as \<open>int\<close>; a float holds them exactly
  while they stay below \<open>2^24\<close>. The quotients of line 213 and 214 are never stored: they
  are compared with 1.5 at once, and are modelled with the special values of float
  division.

  Indexing a dimension of size \<open>n\<close> with a Python integer \<open>i\<close>: \<open>i\<close> itself when
  \<open>0 \<le> i < n\<close>, \<open>n + i\<close> when \<open>-n \<le> i < 0\<close>, and \<^verbatim>\<open>IndexError\<close> otherwise.
\<close>

type_synonym stats = "int list list"

definition tensor_row :: "nat \<Rightarrow> int \<Rightarrow> nat option" where
  "tensor_row n i =
     (if 0 \<le> i \<and> i < int n then Some (nat i)
      else if - int n \<le> i \<and> i < 0 then Some (nat (int n + i))
      else None)"

text \<open>\<^verbatim>\<open>prefix[p]\<close> on the key tuple, for the constants \<open>p = 0\<close> and \<open>p = 1\<close> of the loop.\<close>

definition prefix_at :: "pair_key \<Rightarrow> nat \<Rightarrow> int" where
  "prefix_at prefix p = (if p = 0 then fst prefix else snd prefix)"

text \<open>\<^verbatim>\<open>relation_stats[r, c] = v\<close> for a row \<open>r\<close> already resolved.\<close>

definition set_entry :: "stats \<Rightarrow> nat \<Rightarrow> nat \<Rightarrow> int \<Rightarrow> stats" where
  "set_entry relation_stats r c v = relation_stats[r := (relation_stats ! r)[c := v]]"

text \<open>
  The inner loop \<^verbatim>\<open>for prefix, labels in index.items()\<close> (lines 210 to 212): the first
  statement stores \<^verbatim>\<open>labels.float().sum()\<close>, the sum of the identifiers in the group, in
  column \<open>0 + p * 2\<close>; the second adds one to column \<open>1 + p * 2\<close>.
\<close>

fun stats_loop :: "nat \<Rightarrow> index \<Rightarrow> stats \<Rightarrow> error + stats" where
  "stats_loop p [] relation_stats = Inr relation_stats"
| "stats_loop p ((prefix, labels) # rest) relation_stats =
     (case tensor_row (length relation_stats) (prefix_at prefix p) of
        None \<Rightarrow> Inl IndexError
      | Some r \<Rightarrow>
          (let stats1 = set_entry relation_stats r (0 + p * 2) (sum_list labels);
               stats2 = set_entry stats1 r (1 + p * 2) (stats1 ! r ! (1 + p * 2) + 1)
           in stats_loop p rest stats2))"

text \<open>Lines 205 to 212: the table of zeros, then the loop for \<^verbatim>\<open>(sp, 1)\<close>, then for \<^verbatim>\<open>(po, 0)\<close>.\<close>

definition accumulate_stats :: "nat \<Rightarrow> index \<Rightarrow> index \<Rightarrow> error + stats" where
  "accumulate_stats n sp po =
     (case stats_loop 1 sp (replicate n (replicate 6 0)) of
        Inl e \<Rightarrow> Inl e
      | Inr relation_stats \<Rightarrow> stats_loop 0 po relation_stats)"

text \<open>Float division of two whole numbers, and the comparison \<^verbatim>\<open>> c\<close> on its result:
  \<open>0/0\<close> is NaN, which compares false with everything.\<close>

datatype quotient = NaN | PosInf | NegInf | Finite rat

definition float_div :: "int \<Rightarrow> int \<Rightarrow> quotient" where
  "float_div a b =
     (if b = 0 then (if a = 0 then NaN else if 0 < a then PosInf else NegInf)
      else Finite (of_int a / of_int b))"

fun float_gt :: "quotient \<Rightarrow> rat \<Rightarrow> bool" where
  "float_gt NaN c = False"
| "float_gt PosInf c = True"
| "float_gt NegInf c = False"
| "float_gt (Finite q) c = (c < q)"

text \<open>\<^verbatim>\<open>relation_stats[:,c] = (relation_stats[:,a]/relation_stats[:,b]) > 1.5\<close>.\<close>

definition assign_flag :: "nat \<Rightarrow> nat \<Rightarrow> nat \<Rightarrow> stats \<Rightarrow> stats" where
  "assign_flag c a b relation_stats =
     map (\<lambda>row. row[c := (if float_gt (float_div (row ! a) (row ! b)) (3 / 2) then 1 else 0)])
       relation_stats"

text \<open>The label of line 217 to 219, from a row of the table.\<close>

definition label_of_row :: "int list \<Rightarrow> string" where
  "label_of_row row =
     (if row ! 4 = 0 then ''1'' else ''M'') @ ''-'' @ (if row ! 5 = 0 then ''1'' else ''N'')"

text \<open>
  \<^verbatim>\<open>for i, relation in enumerate(self.relations)\<close>: reading \<^verbatim>\<open>relation_stats[i,4]\<close> raises
  \<^verbatim>\<open>IndexError\<close> once \<open>i\<close> reaches the number of rows. The dictionary \<^verbatim>\<open>result\<close> is the
  association list of its items, in insertion order.
\<close>

fun enumerate_labels :: "nat \<Rightarrow> 'a list \<Rightarrow> stats \<Rightarrow> error + (nat \<times> string) list" where
  "enumerate_labels i [] relation_stats = Inr []"
| "enumerate_labels i (relation # rest) relation_stats =
     (if i < length relation_stats
      then (case enumerate_labels (Suc i) rest relation_stats of
              Inl e \<Rightarrow> Inl e
            | Inr result \<Rightarrow> Inr ((i, label_of_row (relation_stats ! i)) # result))
      else Inl IndexError)"

text \<open>\<^verbatim>\<open>index.items()\<close> on what \<^verbatim>\<open>index_1toN\<close> returned: \<^verbatim>\<open>None\<close> has no such attribute.\<close>

definition items :: "index option \<Rightarrow> error + index" where
  "items r = (case r of None \<Rightarrow> Inl AttributeError | Some idx \<Rightarrow> Inr idx)"

definition get_relation_types :: "dataset \<Rightarrow> (error + (nat \<times> string) list) \<times> dataset" where
  "get_relation_types self =
     (case index_1toN self ''train'' ''sp'' of
        (Inl e, self1) \<Rightarrow> (Inl e, self1)
      | (Inr r_sp, self1) \<Rightarrow>
          (case index_1toN self1 ''train'' ''po'' of
             (Inl e, self2) \<Rightarrow> (Inl e, self2)
           | (Inr r_po, self2) \<Rightarrow>
               (case items r_sp of
                  Inl e \<Rightarrow> (Inl e, self2)
                | Inr sp \<Rightarrow>
                    (case items r_po of
                       Inl e \<Rightarrow> (Inl e, self2)
                     | Inr po \<Rightarrow>
                         (case accumulate_stats (num_relations self) sp po of
                            Inl e \<Rightarrow> (Inl e, self2)
                          | Inr relation_stats \<Rightarrow>
                              (enumerate_labels 0 (relations self)
                                 (assign_flag 5 2 3 (assign_flag 4 0 1 relation_stats)),
                               self2))))))"

text \<open>\<^verbatim>\<open>self.relations_per_type.setdefault(v, set()).add(k)\<close>.\<close>

definition add_relation :: "nat \<times> string \<Rightarrow> (string \<rightharpoonup> nat set) \<Rightarrow> (string \<rightharpoonup> nat set)" where
  "add_relation kv m =
     m(snd kv \<mapsto> insert (fst kv) (case m (snd kv) of None \<Rightarrow> {} | Some ks \<Rightarrow> ks))"

text \<open>
  \<^verbatim>\<open>Dataset.__init__\<close>: the fields are stored, the cache starts empty, and the classifier
  runs on the object so far. An exception of the classifier leaves the constructor. The two
  fields set after it hold empty placeholders until then.
\<close>

definition Dataset_init :: "log_entry list \<Rightarrow> nat \<Rightarrow> string list list \<Rightarrow> nat \<Rightarrow> string list list \<Rightarrow>
    triple list \<Rightarrow> string list list \<Rightarrow> triple list \<Rightarrow> string list list \<Rightarrow>
    triple list \<Rightarrow> string list list \<Rightarrow> error + dataset" where
  "Dataset_init cfg n_entities ents n_relations rels trn trn_meta vld vld_meta tst tst_meta =
     (let self = \<lparr>config = cfg, num_entities = n_entities, entities = ents,
                  num_relations = n_relations, relations = rels,
                  train = trn, train_meta = trn_meta,
                  valid = vld, valid_meta = vld_meta,
                  test = tst, test_meta = tst_meta,
                  indexes = Map.empty, relation_types = [],
                  relations_per_type = Map.empty\<rparr>
      in case get_relation_types self of
           (Inl e, self1) \<Rightarrow> Inl e
         | (Inr types, self1) \<Rightarrow>
             Inr (self1\<lparr>relation_types := types,
                        relations_per_type := fold add_relation types Map.empty\<rparr>))"


section \<open>Properties of the builder\<close>

lemma map_of_dict_append:
  "map_of (dict_append d k v) k' =
     (if k' = k then Some (lookup_list d k @ [v]) else map_of d k')"
  by (induction d) (auto simp: lookup_list_def)

lemma keys_dict_append:
  "map fst (dict_append d k v) =
     (if k \<in> set (map fst d) then map fst d else map fst d @ [k])"
  by (induction d) (force+)

lemma distinct_dict_append:
  "distinct (map fst d) \<Longrightarrow> distinct (map fst (dict_append d k v))"
  by (simp add: keys_dict_append)

lemma distinct_group_rows:
  "distinct (map fst d) \<Longrightarrow> distinct (map fst (group_rows d rows))"
  by (induction d rows rule: group_rows.induct) (auto simp: distinct_dict_append)

lemma keys_group_rows:
  "set (map fst (group_rows d rows)) = set (map fst d) \<union> set (map fst rows)"
  by (induction d rows rule: group_rows.induct) (auto simp: keys_dict_append)

lemma lookup_group_rows:
  "lookup_list (group_rows d rows) k =
     lookup_list d k @ map snd (filter (\<lambda>r. fst r = k) rows)"
proof (induction d rows rule: group_rows.induct)
  case (1 d)
  then show ?case by simp
next
  case (2 d k' v rows)
  have "lookup_list (dict_append d k' v) k =
          (if k = k' then lookup_list d k @ [v] else lookup_list d k)"
    by (simp add: lookup_list_def map_of_dict_append)
  with 2 show ?case by simp
qed

lemma entry_lookup:
  assumes "distinct (map fst d)"
  shows "(k, vs) \<in> set d \<longleftrightarrow> k \<in> set (map fst d) \<and> vs = lookup_list d k"
proof
  assume "(k, vs) \<in> set d"
  with assms have "map_of d k = Some vs" by simp
  moreover from \<open>(k, vs) \<in> set d\<close> have "k \<in> set (map fst d)" by force
  ultimately show "k \<in> set (map fst d) \<and> vs = lookup_list d k"
    by (simp add: lookup_list_def)
next
  assume r: "k \<in> set (map fst d) \<and> vs = lookup_list d k"
  then obtain ws where "map_of d k = Some ws"
    by (cases "map_of d k") (auto simp: map_of_eq_None_iff)
  with r show "(k, vs) \<in> set d"
    by (auto simp: lookup_list_def dest: map_of_SomeD)
qed

lemma entry_group_rows:
  "(k, vs) \<in> set (group_rows [] rows) \<longleftrightarrow>
     k \<in> set (map fst rows) \<and> vs = map snd (filter (\<lambda>r. fst r = k) rows)"
proof -
  have "distinct (map fst (group_rows [] rows))"
    by (rule distinct_group_rows) simp
  then have "(k, vs) \<in> set (group_rows [] rows) \<longleftrightarrow>
      k \<in> set (map fst (group_rows [] rows)) \<and> vs = lookup_list (group_rows [] rows) k"
    by (rule entry_lookup)
  also have "lookup_list (group_rows [] rows) k = map snd (filter (\<lambda>r. fst r = k) rows)"
    by (simp add: lookup_group_rows) (simp add: lookup_list_def)
  also have "set (map fst (group_rows [] rows)) = set (map fst rows)"
    by (simp only: keys_group_rows) simp
  finally show ?thesis .
qed

lemma entry_group_by_sp_po:
  "(k, vs) \<in> set (group_by_sp_po ks os) \<longleftrightarrow>
     k \<in> set (map fst (zip ks os)) \<and>
     vs = sort (map snd (filter (\<lambda>r. fst r = k) (zip ks os)))"
proof -
  have "(k, vs) \<in> set (group_by_sp_po ks os) \<longleftrightarrow>
          (\<exists>ws. (k, ws) \<in> set (group_rows [] (zip ks os)) \<and> vs = sort ws)"
    by (force simp: group_by_sp_po_def)
  then show ?thesis
    by (simp add: entry_group_rows)
qed

lemma keys_group_by_sp_po:
  "map fst (group_by_sp_po ks os) = map fst (group_rows [] (zip ks os))"
  by (simp add: group_by_sp_po_def case_prod_unfold comp_def)

lemma distinct_group_by_sp_po: "distinct (map fst (group_by_sp_po ks os))"
  by (simp add: keys_group_by_sp_po distinct_group_rows)

lemma map_of_group_by_sp_po:
  "map_of (group_by_sp_po ks os) k = Some vs \<longleftrightarrow> (k, vs) \<in> set (group_by_sp_po ks os)"
  using distinct_group_by_sp_po [of ks os] by (auto dest: map_of_SomeD)

lemma zip_select:
  "zip (select_cols triples (a, b)) (select_col triples c) =
     map (\<lambda>t. ((col a t, col b t), col c t)) triples"
  by (induction triples) (auto simp: select_cols_def select_col_def)


section \<open>Properties of the statistics table\<close>

lemma length_set_entry [simp]: "length (set_entry st r c v) = length st"
  by (simp add: set_entry_def)

lemma row_length_set_entry [simp]: "length (set_entry st r c v ! i) = length (st ! i)"
  by (cases "r < length st"; cases "i = r") (simp_all add: set_entry_def list_update_beyond)

lemma nth_set_entry_other_row: "i \<noteq> r \<Longrightarrow> set_entry st r c v ! i = st ! i"
  by (simp add: set_entry_def)

lemma nth_set_entry_other_col: "c' \<noteq> c \<Longrightarrow> set_entry st r c v ! i ! c' = st ! i ! c'"
  by (cases "r < length st"; cases "i = r") (simp_all add: set_entry_def list_update_beyond)

lemma nth_set_entry_same:
  "r < length st \<Longrightarrow> c < length (st ! r) \<Longrightarrow> set_entry st r c v ! r ! c = v"
  by (simp add: set_entry_def)

lemma tensor_row_less: "tensor_row n i = Some r \<Longrightarrow> r < n"
  by (auto simp: tensor_row_def split: if_splits)

lemma stats_loop_length:
  "stats_loop p idx st = Inr st' \<Longrightarrow> length st' = length st"
  by (induction p idx st rule: stats_loop.induct) (auto simp: Let_def split: option.splits)

lemma stats_loop_row_length:
  "stats_loop p idx st = Inr st' \<Longrightarrow> length (st' ! i) = length (st ! i)"
  by (induction p idx st rule: stats_loop.induct) (auto simp: Let_def split: option.splits)

lemma stats_loop_error:
  "stats_loop p idx st = Inl e \<Longrightarrow> e = IndexError"
  by (induction p idx st rule: stats_loop.induct) (auto simp: Let_def split: option.splits)

lemma stats_loop_succeeds_iff:
  "(\<exists>st'. stats_loop p idx st = Inr st') \<longleftrightarrow>
     (\<forall>e \<in> set idx. tensor_row (length st) (prefix_at (fst e) p) \<noteq> None)"
  by (induction p idx st rule: stats_loop.induct) (auto simp: Let_def split: option.splits)

lemma stats_loop_other_row:
  "stats_loop p idx st = Inr st' \<Longrightarrow>
   \<forall>e \<in> set idx. tensor_row (length st) (prefix_at (fst e) p) \<noteq> Some i \<Longrightarrow>
   st' ! i = st ! i"
  by (induction p idx st rule: stats_loop.induct)
     (auto simp: Let_def nth_set_entry_other_row split: option.splits)

lemma stats_loop_other_col:
  "stats_loop p idx st = Inr st' \<Longrightarrow> c \<noteq> 0 + p * 2 \<Longrightarrow> c \<noteq> 1 + p * 2 \<Longrightarrow>
   st' ! i ! c = st ! i ! c"
  by (induction p idx st rule: stats_loop.induct)
     (auto simp: Let_def nth_set_entry_other_col split: option.splits)

lemma stats_loop_count:
  "stats_loop p idx st = Inr st' \<Longrightarrow> \<forall>r < length st. 1 + p * 2 < length (st ! r) \<Longrightarrow>
   st ! i ! (1 + p * 2) \<le> st' ! i ! (1 + p * 2) \<and>
   (st' ! i ! (1 + p * 2) = st ! i ! (1 + p * 2) \<longrightarrow> st' ! i = st ! i)"
proof (induction p idx st rule: stats_loop.induct)
  case (1 p st)
  then show ?case by simp
next
  case (2 p prefix labels rest st)
  from "2.prems"(1) obtain r where r: "tensor_row (length st) (prefix_at prefix p) = Some r"
    by (auto split: option.splits)
  define st1 where "st1 = set_entry st r (0 + p * 2) (sum_list labels)"
  define st2 where "st2 = set_entry st1 r (1 + p * 2) (st1 ! r ! (1 + p * 2) + 1)"
  from "2.prems"(1) r have run: "stats_loop p rest st2 = Inr st'"
    by (simp add: st1_def st2_def Let_def)
  have len: "\<forall>r < length st2. 1 + p * 2 < length (st2 ! r)"
    using "2.prems"(2) by (simp add: st1_def st2_def)
  have ih: "st2 ! i ! (1 + p * 2) \<le> st' ! i ! (1 + p * 2) \<and>
     (st' ! i ! (1 + p * 2) = st2 ! i ! (1 + p * 2) \<longrightarrow> st' ! i = st2 ! i)"
    using "2.IH" [OF r st1_def st2_def run len] .
  have rl: "r < length st" using r by (rule tensor_row_less)
  show ?case
  proof (cases "i = r")
    case True
    have "st2 ! r ! (1 + p * 2) = st ! r ! (1 + p * 2) + 1"
      using rl "2.prems"(2)
      by (simp add: st2_def st1_def nth_set_entry_same nth_set_entry_other_col)
    with ih True show ?thesis by auto
  next
    case False
    then have "st2 ! i = st ! i"
      by (simp add: st2_def st1_def nth_set_entry_other_row)
    with ih show ?thesis by simp
  qed
qed

lemma enumerate_labels_eq:
  "i + length rels \<le> length st \<Longrightarrow>
   enumerate_labels i rels st = Inr (map (\<lambda>j. (j, label_of_row (st ! j))) [i..<i + length rels])"
proof (induction rels arbitrary: i)
  case Nil
  then show ?case by simp
next
  case (Cons r rels)
  then have "enumerate_labels (Suc i) rels st =
      Inr (map (\<lambda>j. (j, label_of_row (st ! j))) [Suc i..<Suc i + length rels])"
    by simp
  moreover have "[i..<i + length (r # rels)] = i # [Suc i..<i + length (r # rels)]"
    by (rule upt_conv_Cons) simp
  moreover have "Suc i + length rels = i + length (r # rels)" by simp
  ultimately show ?case using Cons.prems by (simp del: upt_Suc)
qed

lemma enumerate_labels_fails:
  "i \<le> length st \<Longrightarrow> length st < i + length rels \<Longrightarrow>
   enumerate_labels i rels st = Inl IndexError"
  by (induction rels arbitrary: i) auto

lemma length_assign_flag [simp]: "length (assign_flag c a b st) = length st"
  by (simp add: assign_flag_def)

lemma index_1toN_fresh:
  "indexes self (split @ ''_'' @ sp_po) = None \<Longrightarrow>
   select_split self split = Inr triples \<Longrightarrow>
   select_direction sp_po = Inr (cols, vcol) \<Longrightarrow>
   index_1toN self split sp_po =
     (Inr (Some (group_by_sp_po (select_cols triples cols) (select_col triples vcol))),
      build_index self (split @ ''_'' @ sp_po) split sp_po triples cols vcol)"
  by (simp add: index_1toN_def build_index_def Let_def)

lemma get_relation_types_fresh:
  assumes "indexes self = Map.empty"
  shows "\<exists>self2. train self2 = train self \<and>
    get_relation_types self =
     (case accumulate_stats (num_relations self) (sp_index (train self)) (po_index (train self)) of
        Inl e \<Rightarrow> (Inl e, self2)
      | Inr st \<Rightarrow> (enumerate_labels 0 (relations self) (assign_flag 5 2 3 (assign_flag 4 0 1 st)), self2))"
proof -
  define self1 where "self1 = build_index self ''train_sp'' ''train'' ''sp'' (train self) (0, 1) 2"
  define self2 where "self2 = build_index self1 ''train_po'' ''train'' ''po'' (train self1) (1, 2) 0"
  have 1: "index_1toN self ''train'' ''sp'' = (Inr (Some (sp_index (train self))), self1)"
    using index_1toN_fresh [of self "''train''" "''sp''" "train self" "(0, 1)" 2] assms
    by (simp add: select_split_def select_direction_def self1_def)
  have t1: "train self1 = train self" "indexes self1 ''train_po'' = None"
    using assms by (simp_all add: self1_def build_index_def Let_def)
  have 2: "index_1toN self1 ''train'' ''po'' = (Inr (Some (po_index (train self))), self2)"
    using index_1toN_fresh [of self1 "''train''" "''po''" "train self1" "(1, 2)" 0] t1
    by (simp add: select_split_def select_direction_def self2_def)
  have "train self2 = train self"
    using t1 by (simp add: self2_def build_index_def Let_def)
  moreover have "get_relation_types self =
     (case accumulate_stats (num_relations self) (sp_index (train self)) (po_index (train self)) of
        Inl e \<Rightarrow> (Inl e, self2)
      | Inr st \<Rightarrow> (enumerate_labels 0 (relations self) (assign_flag 5 2 3 (assign_flag 4 0 1 st)), self2))"
    by (simp add: get_relation_types_def 1 2 items_def split: sum.splits)
  ultimately show ?thesis by blast
qed

lemma keys_of_index:
  "set (map fst (group_by_sp_po (select_cols triples (a, b)) (select_col triples c))) =
     (\<lambda>t. (col a t, col b t)) ` set triples"
  by (simp only: keys_group_by_sp_po keys_group_rows zip_select) (simp add: image_image)

lemma predicates_sp:
  "(\<lambda>e. prefix_at (fst e) 1) ` set (sp_index triples) = col 1 ` set triples"
proof -
  have "(\<lambda>e. prefix_at (fst e) 1) ` set (sp_index triples) =
        (\<lambda>k. prefix_at k 1) ` set (map fst (sp_index triples))"
    by (simp add: image_image)
  also have "\<dots> = col 1 ` set triples"
    by (simp only: keys_of_index) (simp add: image_image prefix_at_def)
  finally show ?thesis .
qed

lemma predicates_po:
  "(\<lambda>e. prefix_at (fst e) 0) ` set (po_index triples) = col 1 ` set triples"
proof -
  have "(\<lambda>e. prefix_at (fst e) 0) ` set (po_index triples) =
        (\<lambda>k. prefix_at k 0) ` set (map fst (po_index triples))"
    by (simp add: image_image)
  also have "\<dots> = col 1 ` set triples"
    by (simp only: keys_of_index) (simp add: image_image prefix_at_def)
  finally show ?thesis .
qed

lemma ball_predicates_sp:
  "(\<forall>e \<in> set (sp_index triples). P (prefix_at (fst e) 1)) \<longleftrightarrow> (\<forall>t \<in> set triples. P (col 1 t))"
proof -
  have "(\<forall>e \<in> set (sp_index triples). P (prefix_at (fst e) 1)) \<longleftrightarrow>
        (\<forall>x \<in> (\<lambda>e. prefix_at (fst e) 1) ` set (sp_index triples). P x)"
    by blast
  also have "\<dots> \<longleftrightarrow> (\<forall>x \<in> col 1 ` set triples. P x)"
    by (simp only: predicates_sp)
  also have "\<dots> \<longleftrightarrow> (\<forall>t \<in> set triples. P (col 1 t))"
    by blast
  finally show ?thesis .
qed

lemma ball_predicates_po:
  "(\<forall>e \<in> set (po_index triples). P (prefix_at (fst e) 0)) \<longleftrightarrow> (\<forall>t \<in> set triples. P (col 1 t))"
proof -
  have "(\<forall>e \<in> set (po_index triples). P (prefix_at (fst e) 0)) \<longleftrightarrow>
        (\<forall>x \<in> (\<lambda>e. prefix_at (fst e) 0) ` set (po_index triples). P x)"
    by blast
  also have "\<dots> \<longleftrightarrow> (\<forall>x \<in> col 1 ` set triples. P x)"
    by (simp only: predicates_po)
  also have "\<dots> \<longleftrightarrow> (\<forall>t \<in> set triples. P (col 1 t))"
    by blast
  finally show ?thesis .
qed

lemma accumulate_stats_succeeds:
  assumes "\<forall>t \<in> set trn. tensor_row n (col 1 t) \<noteq> None"
  shows "\<exists>st1 raw. stats_loop 1 (sp_index trn) (replicate n (replicate 6 0)) = Inr st1 \<and>
           stats_loop 0 (po_index trn) st1 = Inr raw \<and>
           accumulate_stats n (sp_index trn) (po_index trn) = Inr raw"
proof -
  have "\<forall>e \<in> set (sp_index trn). tensor_row n (prefix_at (fst e) 1) \<noteq> None"
    using assms by (simp only: ball_predicates_sp [where P = "\<lambda>p. tensor_row n p \<noteq> None"])
  then obtain st1 where st1: "stats_loop 1 (sp_index trn) (replicate n (replicate 6 0)) = Inr st1"
    using stats_loop_succeeds_iff [of 1 "sp_index trn" "replicate n (replicate 6 0)"] by auto
  then have len: "length st1 = n"
    by (simp add: stats_loop_length)
  have "\<forall>e \<in> set (po_index trn). tensor_row n (prefix_at (fst e) 0) \<noteq> None"
    using assms by (simp only: ball_predicates_po [where P = "\<lambda>p. tensor_row n p \<noteq> None"])
  then obtain raw where raw: "stats_loop 0 (po_index trn) st1 = Inr raw"
    using stats_loop_succeeds_iff [of 0 "po_index trn" st1] len by auto
  with st1 show ?thesis by (simp add: accumulate_stats_def)
qed

lemma accumulate_stats_fails:
  assumes "\<exists>t \<in> set trn. tensor_row n (col 1 t) = None"
  shows "accumulate_stats n (sp_index trn) (po_index trn) = Inl IndexError"
proof -
  have "\<not> (\<forall>e \<in> set (sp_index trn). tensor_row n (prefix_at (fst e) 1) \<noteq> None)"
    using assms by (simp only: ball_predicates_sp [where P = "\<lambda>p. tensor_row n p \<noteq> None"]) simp
  then have "\<not> (\<exists>st'. stats_loop 1 (sp_index trn) (replicate n (replicate 6 0)) = Inr st')"
    using stats_loop_succeeds_iff [of 1 "sp_index trn" "replicate n (replicate 6 0)"] by simp
  then obtain e where e: "stats_loop 1 (sp_index trn) (replicate n (replicate 6 0)) = Inl e"
    by (cases "stats_loop 1 (sp_index trn) (replicate n (replicate 6 0))") auto
  then have "e = IndexError" by (rule stats_loop_error)
  with e show ?thesis by (simp add: accumulate_stats_def)
qed

lemma label_of_flagged_row:
  assumes "length row = 6"
  shows "label_of_row (row[4 := (if A then 1 else 0), 5 := (if B then 1 else 0)]) =
           (if A then ''M'' else ''1'') @ ''-'' @ (if B then ''N'' else ''1'')"
  using assms by (simp add: label_of_row_def)

lemma flagged_row:
  assumes "i < length st"
  shows "assign_flag 5 2 3 (assign_flag 4 0 1 st) ! i =
     (st ! i)[4 := (if float_gt (float_div (st ! i ! 0) (st ! i ! 1)) (3 / 2) then 1 else 0),
              5 := (if float_gt (float_div (st ! i ! 2) (st ! i ! 3)) (3 / 2) then 1 else 0)]"
  using assms by (simp add: assign_flag_def)

section \<open>Properties of the compact view and of the cache\<close>

lemma length_cumsum_from [simp]: "length (cumsum_from a xs) = length xs"
  by (induction xs arbitrary: a) auto






lemma select_split_build_index [simp]:
  "select_split (build_index self name split sp_po triples cols vcol) s = select_split self s"
  by (simp add: select_split_def build_index_def Let_def)

lemma group_by_sp_po_nonempty:
  "triples \<noteq> [] \<Longrightarrow> group_by_sp_po (select_cols triples cols) (select_col triples vcol) \<noteq> []"
proof -
  assume "triples \<noteq> []"
  then obtain t ts where "triples = t # ts" by (cases triples) auto
  then have "(col (fst cols) t, col (snd cols) t) \<in>
      set (map fst (group_by_sp_po (select_cols triples cols) (select_col triples vcol)))"
    using keys_of_index [of triples "fst cols" "snd cols" vcol] by simp
  then show ?thesis by auto
qed

lemma index_1toN_second_call:
  assumes "select_split self split = Inr triples" and "triples \<noteq> []"
    and "index_1toN self split sp_po = (Inr r, self')"
  shows "index_1toN self' split sp_po = (Inr r, self')"
proof -
  from assms(1,3) obtain cols vcol where d: "select_direction sp_po = Inr (cols, vcol)"
    by (cases "select_direction sp_po") (auto simp: index_1toN_def)
  let ?name = "split @ ''_'' @ sp_po"
  show ?thesis
  proof (cases "truthy (indexes self ?name)")
    case True
    with assms(1,3) d have "self' = self" "r = indexes self ?name"
      by (auto simp: index_1toN_def Let_def)
    with assms(3) show ?thesis by simp
  next
    case False
    let ?idx = "group_by_sp_po (select_cols triples cols) (select_col triples vcol)"
    from False assms(1,3) d
    have s: "self' = build_index self ?name split sp_po triples cols vcol" and r: "r = Some ?idx"
      by (auto simp: index_1toN_def Let_def build_index_def)
    have "indexes self' ?name = Some ?idx"
      by (simp add: s build_index_def Let_def)
    moreover have "?idx \<noteq> []" using assms(2) by (rule group_by_sp_po_nonempty)
    ultimately have "truthy (indexes self' ?name)" by simp
    moreover have "select_split self' split = Inr triples"
      using assms(1) by (simp add: s)
    ultimately show ?thesis
      using d r \<open>indexes self' ?name = Some ?idx\<close> by (simp add: index_1toN_def Let_def)
  qed
qed


section \<open>Properties of the classifier and of the constructor\<close>

lemma Dataset_init_cases:
  "\<exists>self2.
     Dataset_init cfg ne ents n rels trn trn_meta vld vld_meta tst tst_meta =
       (case accumulate_stats n (sp_index trn) (po_index trn) of
          Inl e \<Rightarrow> Inl e
        | Inr raw \<Rightarrow>
            (case enumerate_labels 0 rels (assign_flag 5 2 3 (assign_flag 4 0 1 raw)) of
               Inl e \<Rightarrow> Inl e
             | Inr types \<Rightarrow>
                 Inr (self2\<lparr>relation_types := types,
                            relations_per_type := fold add_relation types Map.empty\<rparr>)))"
proof -
  let ?self = "\<lparr>config = cfg, num_entities = ne, entities = ents,
                  num_relations = n, relations = rels,
                  train = trn, train_meta = trn_meta,
                  valid = vld, valid_meta = vld_meta,
                  test = tst, test_meta = tst_meta,
                  indexes = Map.empty, relation_types = [],
                  relations_per_type = Map.empty\<rparr>"
  have "indexes ?self = Map.empty" by simp
  from get_relation_types_fresh [OF this] have "\<exists>self2. get_relation_types ?self =
     (case accumulate_stats n (sp_index trn) (po_index trn) of
        Inl e \<Rightarrow> (Inl e, self2)
      | Inr st \<Rightarrow> (enumerate_labels 0 rels (assign_flag 5 2 3 (assign_flag 4 0 1 st)), self2))"
    by (auto cong: sum.case_cong)
  then obtain self2 where
    g: "get_relation_types ?self =
     (case accumulate_stats n (sp_index trn) (po_index trn) of
        Inl e \<Rightarrow> (Inl e, self2)
      | Inr st \<Rightarrow> (enumerate_labels 0 rels (assign_flag 5 2 3 (assign_flag 4 0 1 st)), self2))"
    by (rule exE)
  have "Dataset_init cfg ne ents n rels trn trn_meta vld vld_meta tst tst_meta =
       (case accumulate_stats n (sp_index trn) (po_index trn) of
          Inl e \<Rightarrow> Inl e
        | Inr raw \<Rightarrow>
            (case enumerate_labels 0 rels (assign_flag 5 2 3 (assign_flag 4 0 1 raw)) of
               Inl e \<Rightarrow> Inl e
             | Inr types \<Rightarrow>
                 Inr (self2\<lparr>relation_types := types,
                            relations_per_type := fold add_relation types Map.empty\<rparr>)))"
    unfolding Dataset_init_def Let_def g by (simp split: sum.splits)
  then show ?thesis by blast
qed

lemma accumulate_stats_shape:
  assumes "accumulate_stats n sp po = Inr raw"
  shows "length raw = n" and "i < n \<Longrightarrow> length (raw ! i) = 6"
proof -
  from assms obtain st1 where 1: "stats_loop 1 sp (replicate n (replicate 6 0)) = Inr st1"
    and 2: "stats_loop 0 po st1 = Inr raw"
    by (auto simp: accumulate_stats_def split: sum.splits)
  show "length raw = n"
    using stats_loop_length [OF 1] stats_loop_length [OF 2] by simp
  show "length (raw ! i) = 6" if "i < n"
    using stats_loop_row_length [OF 1, of i] stats_loop_row_length [OF 2, of i] that by simp
qed

lemma labels_of_stats:
  assumes "accumulate_stats n sp po = Inr raw" and "length rels \<le> n"
  shows "enumerate_labels 0 rels (assign_flag 5 2 3 (assign_flag 4 0 1 raw)) =
     Inr (map (\<lambda>i. (i,
            (if float_gt (float_div (raw ! i ! 0) (raw ! i ! 1)) (3 / 2) then ''M'' else ''1'') @ ''-'' @
            (if float_gt (float_div (raw ! i ! 2) (raw ! i ! 3)) (3 / 2) then ''N'' else ''1'')))
          [0..<length rels])"
proof -
  let ?st = "assign_flag 5 2 3 (assign_flag 4 0 1 raw)"
  have len: "length raw = n" using assms(1) by (rule accumulate_stats_shape)
  have "enumerate_labels 0 rels ?st =
      Inr (map (\<lambda>j. (j, label_of_row (?st ! j))) [0..<0 + length rels])"
    by (rule enumerate_labels_eq) (simp add: len assms(2))
  moreover have "label_of_row (?st ! j) =
      (if float_gt (float_div (raw ! j ! 0) (raw ! j ! 1)) (3 / 2) then ''M'' else ''1'') @ ''-'' @
      (if float_gt (float_div (raw ! j ! 2) (raw ! j ! 3)) (3 / 2) then ''N'' else ''1'')"
    if "j < length rels" for j
  proof -
    have j: "j < length raw" using that assms(2) len by simp
    have six: "length (raw ! j) = 6"
      using accumulate_stats_shape(2) [OF assms(1)] j len by simp
    show ?thesis
      by (simp only: flagged_row [OF j] label_of_flagged_row [OF six])
  qed
  ultimately show ?thesis by simp
qed

lemma map_of_enumerated:
  "i < m \<Longrightarrow> map_of (map (\<lambda>j. (j, f j)) [0..<m]) i = Some (f i)"
proof -
  assume "i < m"
  then have "(i, f i) \<in> set (map (\<lambda>j. (j, f j)) [0..<m])" by simp
  moreover have "distinct (map fst (map (\<lambda>j. (j, f j)) [0..<m]))"
    by (simp add: comp_def)
  ultimately show ?thesis by (rule map_of_is_SomeI [rotated])
qed

lemma Dataset_init_succeeds:
  assumes "\<forall>t \<in> set trn. tensor_row n (col 1 t) \<noteq> None" and "length rels \<le> n"
  shows "\<exists>d raw.
     Dataset_init cfg ne ents n rels trn trn_meta vld vld_meta tst tst_meta = Inr d \<and>
     accumulate_stats n (sp_index trn) (po_index trn) = Inr raw \<and>
     relation_types d =
       map (\<lambda>i. (i,
            (if float_gt (float_div (raw ! i ! 0) (raw ! i ! 1)) (3 / 2) then ''M'' else ''1'') @ ''-'' @
            (if float_gt (float_div (raw ! i ! 2) (raw ! i ! 3)) (3 / 2) then ''N'' else ''1'')))
          [0..<length rels]"
proof -
  from accumulate_stats_succeeds [OF assms(1)] obtain raw where
    raw: "accumulate_stats n (sp_index trn) (po_index trn) = Inr raw" by blast
  note lab = labels_of_stats [OF raw assms(2)]
  define types where "types = map (\<lambda>i. (i,
            (if float_gt (float_div (raw ! i ! 0) (raw ! i ! 1)) (3 / 2) then ''M'' else ''1'') @ ''-'' @
            (if float_gt (float_div (raw ! i ! 2) (raw ! i ! 3)) (3 / 2) then ''N'' else ''1'')))
          [0..<length rels]"
  from Dataset_init_cases [of cfg ne ents n rels trn trn_meta vld vld_meta tst tst_meta]
  obtain self2 where
    "Dataset_init cfg ne ents n rels trn trn_meta vld vld_meta tst tst_meta =
       (case accumulate_stats n (sp_index trn) (po_index trn) of
          Inl e \<Rightarrow> Inl e
        | Inr raw \<Rightarrow>
            (case enumerate_labels 0 rels (assign_flag 5 2 3 (assign_flag 4 0 1 raw)) of
               Inl e \<Rightarrow> Inl e
             | Inr types \<Rightarrow>
                 Inr (self2\<lparr>relation_types := types,
                            relations_per_type := fold add_relation types Map.empty\<rparr>)))"
    by blast
  then have d: "Dataset_init cfg ne ents n rels trn trn_meta vld vld_meta tst tst_meta =
      Inr (self2\<lparr>relation_types := types,
        relations_per_type := fold add_relation types Map.empty\<rparr>)"
    by (simp only: raw lab sum.case types_def)
  have "relation_types (self2\<lparr>relation_types := types,
        relations_per_type := fold add_relation types Map.empty\<rparr>) = types"
    by simp
  with raw d show ?thesis unfolding types_def by blast
qed

lemma Dataset_init_fails:
  assumes "(\<exists>t \<in> set trn. tensor_row n (col 1 t) = None) \<or> n < length rels"
  shows "Dataset_init cfg ne ents n rels trn trn_meta vld vld_meta tst tst_meta = Inl IndexError"
proof -
  from Dataset_init_cases [of cfg ne ents n rels trn trn_meta vld vld_meta tst tst_meta]
  obtain self2 where
    eq: "Dataset_init cfg ne ents n rels trn trn_meta vld vld_meta tst tst_meta =
       (case accumulate_stats n (sp_index trn) (po_index trn) of
          Inl e \<Rightarrow> Inl e
        | Inr raw \<Rightarrow>
            (case enumerate_labels 0 rels (assign_flag 5 2 3 (assign_flag 4 0 1 raw)) of
               Inl e \<Rightarrow> Inl e
             | Inr types \<Rightarrow>
                 Inr (self2\<lparr>relation_types := types,
                            relations_per_type := fold add_relation types Map.empty\<rparr>)))"
    by blast
  show ?thesis
  proof (cases "\<exists>t \<in> set trn. tensor_row n (col 1 t) = None")
    case True
    then have "accumulate_stats n (sp_index trn) (po_index trn) = Inl IndexError"
      by (rule accumulate_stats_fails)
    then show ?thesis by (simp only: eq sum.case)
  next
    case False
    with assms have big: "n < length rels" by blast
    from False have "\<forall>t \<in> set trn. tensor_row n (col 1 t) \<noteq> None" by auto
    from accumulate_stats_succeeds [OF this] obtain raw where
      raw: "accumulate_stats n (sp_index trn) (po_index trn) = Inr raw" by blast
    have "length raw = n" using raw by (rule accumulate_stats_shape)
    then have "enumerate_labels 0 rels (assign_flag 5 2 3 (assign_flag 4 0 1 raw)) = Inl IndexError"
      using big by (intro enumerate_labels_fails) simp_all
    then show ?thesis by (simp only: eq raw sum.case)
  qed
qed

lemma accumulate_stats_degenerate:
  assumes "accumulate_stats n sp po = Inr raw" and "i < n"
  shows "(raw ! i ! 1 = 0 \<longrightarrow> raw ! i ! 0 = 0) \<and> (raw ! i ! 3 = 0 \<longrightarrow> raw ! i ! 2 = 0)"
proof -
  let ?st0 = "replicate n (replicate 6 (0 :: int))"
  from assms(1) obtain st1 where 1: "stats_loop 1 sp ?st0 = Inr st1"
    and 2: "stats_loop 0 po st1 = Inr raw"
    by (auto simp: accumulate_stats_def split: sum.splits)
  have z: "?st0 ! i ! c = 0" if "c < 6" for c
    using assms(2) that by simp
  have l1: "length st1 = n" using stats_loop_length [OF 1] by simp
  have r1: "length (st1 ! r) = 6" if "r < n" for r
    using stats_loop_row_length [OF 1, of r] that by simp
  have e3: "(1 :: nat) + 1 * 2 = 3" and e1: "(1 :: nat) + 0 * 2 = 1" by simp_all
  have p1: "\<forall>r < length ?st0. 1 + 1 * 2 < length (?st0 ! r)" by simp
  have p2: "\<forall>r < length st1. 1 + 0 * 2 < length (st1 ! r)" by (simp add: l1 r1)
  note c1 = stats_loop_count [OF 1 p1, of i, unfolded e3]
  note c2 = stats_loop_count [OF 2 p2, of i, unfolded e1]
  have k1: "st1 ! i ! c = ?st0 ! i ! c" if "c \<noteq> 2" "c \<noteq> 3" for c
    using that by (intro stats_loop_other_col [OF 1]) simp_all
  have k2: "raw ! i ! c = st1 ! i ! c" if "c \<noteq> 0" "c \<noteq> 1" for c
    using that by (intro stats_loop_other_col [OF 2]) simp_all
  have a: "raw ! i ! 0 = 0" if h: "raw ! i ! 1 = 0"
  proof -
    have "st1 ! i ! 1 = 0" using k1 [of 1] z [of 1] by simp
    with c2 h have "raw ! i = st1 ! i" by simp
    then show ?thesis using k1 [of 0] z [of 0] by simp
  qed
  have b: "raw ! i ! 2 = 0" if h: "raw ! i ! 3 = 0"
  proof -
    have "st1 ! i ! 3 = 0" using k2 [of 3] h by simp
    moreover have "?st0 ! i ! 3 = 0" using z [of 3] by simp
    ultimately have "st1 ! i = ?st0 ! i" using c1 by simp
    then have "st1 ! i ! 2 = 0" using z [of 2] by simp
    then show ?thesis using k2 [of 2] by simp
  qed
  from a b show ?thesis by blast
qed

lemma accumulate_stats_untouched:
  assumes "accumulate_stats n (sp_index trn) (po_index trn) = Inr raw" and "i < n"
    and "\<forall>t \<in> set trn. tensor_row n (col 1 t) \<noteq> Some i"
  shows "raw ! i = replicate 6 0"
proof -
  let ?st0 = "replicate n (replicate 6 (0 :: int))"
  from assms(1) obtain st1 where 1: "stats_loop 1 (sp_index trn) ?st0 = Inr st1"
    and 2: "stats_loop 0 (po_index trn) st1 = Inr raw"
    by (auto simp: accumulate_stats_def split: sum.splits)
  have l1: "length st1 = n" using stats_loop_length [OF 1] by simp
  have "\<forall>e \<in> set (sp_index trn). tensor_row n (prefix_at (fst e) 1) \<noteq> Some i"
    using assms(3) by (simp only: ball_predicates_sp [where P = "\<lambda>p. tensor_row n p \<noteq> Some i"])
  then have "st1 ! i = ?st0 ! i"
    by (intro stats_loop_other_row [OF 1]) simp
  moreover have "\<forall>e \<in> set (po_index trn). tensor_row n (prefix_at (fst e) 0) \<noteq> Some i"
    using assms(3) by (simp only: ball_predicates_po [where P = "\<lambda>p. tensor_row n p \<noteq> Some i"])
  then have "raw ! i = st1 ! i"
    by (intro stats_loop_other_row [OF 2]) (simp add: l1)
  ultimately show ?thesis using assms(2) by simp
qed

lemma float_gt_degenerate [simp]: "float_gt (float_div 0 0) c = False"
  by (simp add: float_div_def)



section \<open>The claims\<close>

subsection \<open>The index cache\<close>

text \<open>
  Claim C3 (at most one build per split and direction, also for an empty split). The code
  rebuilds when the cached index is empty: \<^verbatim>\<open>not self.indexes.get(name)\<close> is true for an
  empty \<^verbatim>\<open>OrderedDict\<close> as well as for a missing entry. On a dataset whose \<^verbatim>\<open>valid\<close> split
  has no rows, the first call of \<^verbatim>\<open>index_1toN('valid', 'sp')\<close> returns the empty index and
  logs one build, and the second call builds and logs again. (For a split with at least one
  row the second call is a lookup: lemma \<open>index_1toN_second_call\<close>.)
\<close>

theorem index_1toN_empty_split_rebuilds:
  "fst (index_1toN \<lparr>config = [], num_entities = 3, entities = [], num_relations = 1, relations = [[]],
       train = [(0, 0, 1)], train_meta = [], valid = [], valid_meta = [],
       test = [], test_meta = [], indexes = Map.empty, relation_types = [],
       relations_per_type = Map.empty\<rparr> ''valid'' ''sp'') = Inr (Some []) \<and>
   config (snd (index_1toN \<lparr>config = [], num_entities = 3, entities = [], num_relations = 1, relations = [[]],
       train = [(0, 0, 1)], train_meta = [], valid = [], valid_meta = [],
       test = [], test_meta = [], indexes = Map.empty, relation_types = [],
       relations_per_type = Map.empty\<rparr> ''valid'' ''sp'')) = [(0, ''sp'', ''valid'')] \<and>
   config (snd (index_1toN (snd (index_1toN \<lparr>config = [], num_entities = 3, entities = [], num_relations = 1, relations = [[]],
       train = [(0, 0, 1)], train_meta = [], valid = [], valid_meta = [],
       test = [], test_meta = [], indexes = Map.empty, relation_types = [],
       relations_per_type = Map.empty\<rparr> ''valid'' ''sp'')) ''valid'' ''sp'')) =
     [(0, ''sp'', ''valid''), (0, ''sp'', ''valid'')]"
  by (simp add: index_1toN_def select_split_def select_direction_def build_index_def
      group_by_sp_po_def select_cols_def select_col_def Let_def)

text \<open>
  Claim C8: \<^verbatim>\<open>index_1toN\<close> with a split other than \<^verbatim>\<open>train\<close>, \<^verbatim>\<open>valid\<close>, \<^verbatim>\<open>test\<close>, or a direction
  other than \<^verbatim>\<open>sp\<close>, \<^verbatim>\<open>po\<close>, raises \<^verbatim>\<open>ValueError\<close> (the invalid-argument error of the code)
  and leaves the dataset, its cache included, exactly as it was.
\<close>

theorem index_1toN_invalid:
  assumes "split \<notin> {''train'', ''valid'', ''test''} \<or> sp_po \<notin> {''sp'', ''po''}"
  shows "index_1toN self split sp_po = (Inl ValueError, self)"
  using assms
  by (auto simp: index_1toN_def select_split_def select_direction_def split: sum.splits)

text \<open>
  Claim C8 at \<^verbatim>\<open>split = "bogus"\<close> and at \<^verbatim>\<open>direction = "xy"\<close>.
\<close>

theorem index_1toN_invalid_witness:
  "index_1toN \<lparr>config = [], num_entities = 3, entities = [], num_relations = 1, relations = [[]],
       train = [(0, 0, 1), (0, 0, 2), (1, 0, 2)], train_meta = [], valid = [], valid_meta = [],
       test = [], test_meta = [], indexes = Map.empty, relation_types = [],
       relations_per_type = Map.empty\<rparr> ''bogus'' ''sp'' =
     (Inl ValueError, \<lparr>config = [], num_entities = 3, entities = [], num_relations = 1, relations = [[]],
       train = [(0, 0, 1), (0, 0, 2), (1, 0, 2)], train_meta = [], valid = [], valid_meta = [],
       test = [], test_meta = [], indexes = Map.empty, relation_types = [],
       relations_per_type = Map.empty\<rparr>) \<and>
   index_1toN \<lparr>config = [], num_entities = 3, entities = [], num_relations = 1, relations = [[]],
       train = [(0, 0, 1), (0, 0, 2), (1, 0, 2)], train_meta = [], valid = [], valid_meta = [],
       test = [], test_meta = [], indexes = Map.empty, relation_types = [],
       relations_per_type = Map.empty\<rparr> ''train'' ''xy'' =
     (Inl ValueError, \<lparr>config = [], num_entities = 3, entities = [], num_relations = 1, relations = [[]],
       train = [(0, 0, 1), (0, 0, 2), (1, 0, 2)], train_meta = [], valid = [], valid_meta = [],
       test = [], test_meta = [], indexes = Map.empty, relation_types = [],
       relations_per_type = Map.empty\<rparr>)"
proof -
  have a: "''bogus'' \<notin> {''train'', ''valid'', ''test''} \<or> ''sp'' \<notin> {''sp'', ''po''}" by simp
  have b: "''train'' \<notin> {''train'', ''valid'', ''test''} \<or> ''xy'' \<notin> {''sp'', ''po''}" by simp
  show ?thesis
    using index_1toN_invalid [OF a] index_1toN_invalid [OF b] by simp
qed

subsection \<open>The compact view\<close>

text \<open>
  Claim C4 (an empty index gives empty keys, empty values and offsets \<open>[0]\<close>). The code
  raises instead: \<^verbatim>\<open>torch.cat\<close> refuses the empty list of tensors.
\<close>

theorem prepare_index_empty_raises: "prepare_index [] = Inl RuntimeError"
  by (simp add: prepare_index_def torch_cat_def)




subsection \<open>The builder\<close>

text \<open>
  Claim C6: every row \<open>(s, p, o)\<close> has \<open>o\<close> in the \<^verbatim>\<open>sp\<close> index's list for \<open>(s, p)\<close> and
  \<open>s\<close> in the \<^verbatim>\<open>po\<close> index's list for \<open>(p, o)\<close>; and every element of every list of either
  index comes from a row with that key.
\<close>

theorem group_by_sp_po_round_trip:
  "(\<forall>(s, p, ob) \<in> set triples.
      (\<exists>vs. map_of (sp_index triples) (s, p) = Some vs \<and> ob \<in> set vs) \<and>
      (\<exists>vs. map_of (po_index triples) (p, ob) = Some vs \<and> s \<in> set vs)) \<and>
   (\<forall>((s, p), vs) \<in> set (sp_index triples). \<forall>ob \<in> set vs. (s, p, ob) \<in> set triples) \<and>
   (\<forall>((p, ob), vs) \<in> set (po_index triples). \<forall>s \<in> set vs. (s, p, ob) \<in> set triples)"
  apply (intro conjI ballI)
  subgoal for t
    apply (cases t)
    apply (simp add: map_of_group_by_sp_po entry_group_by_sp_po zip_select)
    apply (force simp: image_iff)
    done
  subgoal for e
    apply (cases e)
    apply (auto simp: entry_group_by_sp_po zip_select)
    done
  subgoal for e
    apply (cases e)
    apply (auto simp: entry_group_by_sp_po zip_select)
    done
  done

text \<open>
  Claim C6 on the triples \<open>(0,0,1), (0,0,2), (1,0,2)\<close>.
\<close>

theorem group_by_sp_po_round_trip_witness:
  "(0, 0, 2) \<in> set [(0, 0, 1), (0, 0, 2), (1, 0, 2 :: int)] \<and>
   map_of (sp_index [(0, 0, 1), (0, 0, 2), (1, 0, 2)]) (0, 0) = Some [1, 2] \<and>
   map_of (po_index [(0, 0, 1), (0, 0, 2), (1, 0, 2)]) (0, 2) = Some [0, 1] \<and>
   sp_index [(0, 0, 1), (0, 0, 2), (1, 0, 2)] = [((0, 0), [1, 2]), ((1, 0), [2])] \<and>
   po_index [(0, 0, 1), (0, 0, 2), (1, 0, 2)] = [((0, 1), [0]), ((0, 2), [0, 1])] \<and>
   (0, 0, 1) \<in> set [(0, 0, 1), (0, 0, 2), (1, 0, 2 :: int)] \<and>
   (1, 0, 2) \<in> set [(0, 0, 1), (0, 0, 2), (1, 0, 2 :: int)]"
proof -
  let ?T = "[(0, 0, 1), (0, 0, 2), (1, 0, 2)] :: triple list"
  have t: "(0, 0, 2) \<in> set ?T" by simp
  have e1: "((0, 0), [1, 2]) \<in> set (sp_index ?T)"
    by (simp add: group_by_sp_po_def select_cols_def select_col_def)
  have e2: "((0, 2), [0, 1]) \<in> set (po_index ?T)"
    by (simp add: group_by_sp_po_def select_cols_def select_col_def)
  note rt = group_by_sp_po_round_trip [of ?T]
  from rt [THEN conjunct1, THEN bspec, OF t]
    rt [THEN conjunct2, THEN conjunct1, THEN bspec, OF e1]
    rt [THEN conjunct2, THEN conjunct2, THEN bspec, OF e2]
  show ?thesis
    by (simp add: group_by_sp_po_def select_cols_def select_col_def)
qed



subsection \<open>The relation-type classifier\<close>

text \<open>
  Claim C1 (\<open>out_total[p]\<close> is the sum of the completion-list lengths over the \<^verbatim>\<open>sp\<close> groups
  of \<open>p\<close>, and likewise for the \<^verbatim>\<open>po\<close> side). The code stores \<^verbatim>\<open>labels.float().sum()\<close>, the sum
  of the identifiers in the group, and stores it with \<^verbatim>\<open>=\<close>, so the column holds the
  identifier sum of the last group only. For the single triple \<open>(0,0,5)\<close> column 2 holds 5
  where the total length is 1, and the predicate is labelled \<^verbatim>\<open>1-N\<close>. For the triples
  \<open>(0,0,1), (0,0,2), (0,0,3), (1,0,0)\<close> column 2 holds 0 where the total length is 4 over 2
  groups (an average of 2), and the predicate is labelled \<^verbatim>\<open>1-1\<close>. A row of the table is
  (po total, po groups, sp total, sp groups, flag, flag); the table of the theorem is the one
  before the flags are set.
\<close>

theorem relation_stats_totals_diverge:
  "accumulate_stats 1 (sp_index [(0, 0, 5)]) (po_index [(0, 0, 5)]) = Inr [[0, 1, 5, 1, 0, 0]] \<and>
   sum_list (map (\<lambda>e. int (length (snd e))) (sp_index [(0, 0, 5)])) = 1 \<and>
   map_sum id relation_types (Dataset_init [] 6 [] 1 [[]] [(0, 0, 5)] [] [] [] [] []) =
     Inr [(0, ''1-N'')] \<and>
   accumulate_stats 1 (sp_index [(0, 0, 1), (0, 0, 2), (0, 0, 3), (1, 0, 0)])
       (po_index [(0, 0, 1), (0, 0, 2), (0, 0, 3), (1, 0, 0)]) = Inr [[1, 4, 0, 2, 0, 0]] \<and>
   sum_list (map (\<lambda>e. int (length (snd e))) (sp_index [(0, 0, 1), (0, 0, 2), (0, 0, 3), (1, 0, 0)])) = 4 \<and>
   length (sp_index [(0, 0, 1), (0, 0, 2), (0, 0, 3), (1, 0, 0)]) = 2 \<and>
   map_sum id relation_types
       (Dataset_init [] 4 [] 1 [[]] [(0, 0, 1), (0, 0, 2), (0, 0, 3), (1, 0, 0)] [] [] [] [] []) =
     Inr [(0, ''1-1'')]"
  by code_simp




text \<open>
  Claim C9: on a dataset whose training predicates lie in \<open>[0, num_relations)\<close>,
  construction raises nothing, and for every relation \<open>i\<close>: a side with no group (group
  count 0 in column 1 for the subject side, in column 3 for the object side) is labelled
  \<^verbatim>\<open>1\<close>, since its total is 0 as well and \<open>0/0\<close> compares false with 1.5; and a predicate
  that no training triple uses is labelled \<^verbatim>\<open>1-1\<close>.
\<close>

theorem degenerate_average_label:
  assumes "\<forall>t \<in> set trn. 0 \<le> col 1 t \<and> col 1 t < int n" and "length rels \<le> n"
  shows "\<exists>d raw.
     Dataset_init cfg ne ents n rels trn trn_meta vld vld_meta tst tst_meta = Inr d \<and>
     accumulate_stats n (sp_index trn) (po_index trn) = Inr raw \<and>
     (\<forall>i < length rels. \<exists>label.
        map_of (relation_types d) i = Some label \<and>
        (raw ! i ! 1 = 0 \<longrightarrow> take 1 label = ''1'') \<and>
        (raw ! i ! 3 = 0 \<longrightarrow> drop 2 label = ''1'') \<and>
        ((\<forall>t \<in> set trn. col 1 t \<noteq> int i) \<longrightarrow> label = ''1-1''))"
proof -
  have valid: "\<forall>t \<in> set trn. tensor_row n (col 1 t) \<noteq> None"
    using assms(1) by (simp add: tensor_row_def)
  from Dataset_init_succeeds [OF valid assms(2), of cfg ne ents trn_meta vld vld_meta tst tst_meta]
  obtain d raw where
    d: "Dataset_init cfg ne ents n rels trn trn_meta vld vld_meta tst tst_meta = Inr d" and
    raw: "accumulate_stats n (sp_index trn) (po_index trn) = Inr raw" and
    types: "relation_types d =
       map (\<lambda>i. (i,
            (if float_gt (float_div (raw ! i ! 0) (raw ! i ! 1)) (3 / 2) then ''M'' else ''1'') @ ''-'' @
            (if float_gt (float_div (raw ! i ! 2) (raw ! i ! 3)) (3 / 2) then ''N'' else ''1'')))
          [0..<length rels]"
    by blast
  have "\<exists>label.
        map_of (relation_types d) i = Some label \<and>
        (raw ! i ! 1 = 0 \<longrightarrow> take 1 label = ''1'') \<and>
        (raw ! i ! 3 = 0 \<longrightarrow> drop 2 label = ''1'') \<and>
        ((\<forall>t \<in> set trn. col 1 t \<noteq> int i) \<longrightarrow> label = ''1-1'')"
    if i: "i < length rels" for i
  proof -
    let ?label = "(if float_gt (float_div (raw ! i ! 0) (raw ! i ! 1)) (3 / 2) then ''M'' else ''1'') @
                ''-'' @
                (if float_gt (float_div (raw ! i ! 2) (raw ! i ! 3)) (3 / 2) then ''N'' else ''1'')"
    have in_n: "i < n" using i assms(2) by simp
    have m: "map_of (relation_types d) i = Some ?label"
      using i by (simp only: types map_of_enumerated)
    note deg = accumulate_stats_degenerate [OF raw in_n]
    have s1: "take 1 ?label = ''1''" if "raw ! i ! 1 = 0"
      using deg that by simp
    have s2: "drop 2 ?label = ''1''" if "raw ! i ! 3 = 0"
      using deg that by simp
    have s3: "?label = ''1-1''" if absent: "\<forall>t \<in> set trn. col 1 t \<noteq> int i"
    proof -
      have "tensor_row n (col 1 t) \<noteq> Some i" if t: "t \<in> set trn" for t
      proof -
        from assms(1) t have "0 \<le> col 1 t" "col 1 t < int n" by auto
        moreover from absent t have "col 1 t \<noteq> int i" by auto
        ultimately show ?thesis by (auto simp: tensor_row_def)
      qed
      then have "\<forall>t \<in> set trn. tensor_row n (col 1 t) \<noteq> Some i" by blast
      from accumulate_stats_untouched [OF raw in_n this] show ?thesis by simp
    qed
    from m s1 s2 s3 show ?thesis by blast
  qed
  with d raw show ?thesis by blast
qed

text \<open>
  Claim C9 with two relations, of which the second occurs in no training triple.
\<close>

theorem degenerate_average_label_witness:
  "map_sum id (\<lambda>d. map_of (relation_types d) 1)
     (Dataset_init [] 3 [] 2 [[], []] [(0, 0, 1), (0, 0, 2), (1, 0, 2)] [] [] [] [] []) =
     Inr (Some ''1-1'')"
proof -
  let ?T = "[(0, 0, 1), (0, 0, 2), (1, 0, 2)] :: triple list"
  have h1: "\<forall>t \<in> set ?T. 0 \<le> col 1 t \<and> col 1 t < int 2" by simp
  have h2: "length [[], [] :: string list] \<le> 2" by simp
  from degenerate_average_label [OF h1 h2, of "[]" 3 "[]" "[]" "[]" "[]" "[]" "[]"]
  obtain d raw where
    d: "Dataset_init [] 3 [] 2 [[], []] ?T [] [] [] [] [] = Inr d" and
    raw: "accumulate_stats 2 (sp_index ?T) (po_index ?T) = Inr raw" and
    lab: "\<forall>i < length [[], [] :: string list]. \<exists>label.
        map_of (relation_types d) i = Some label \<and>
        (raw ! i ! 1 = 0 \<longrightarrow> take 1 label = ''1'') \<and>
        (raw ! i ! 3 = 0 \<longrightarrow> drop 2 label = ''1'') \<and>
        ((\<forall>t \<in> set ?T. col 1 t \<noteq> int i) \<longrightarrow> label = ''1-1'')"
    by blast
  have absent: "\<forall>t \<in> set ?T. col 1 t \<noteq> int 1" by simp
  have "1 < length [[], [] :: string list]" by simp
  from lab [rule_format, OF this] obtain label where
    m: "map_of (relation_types d) 1 = Some label" and
    a: "(\<forall>t \<in> set ?T. col 1 t \<noteq> int 1) \<longrightarrow> label = ''1-1''"
    by blast
  from a absent have "label = ''1-1''" by (rule mp)
  with m have "map_of (relation_types d) 1 = Some ''1-1''" by simp
  with d show ?thesis by simp
qed

subsection \<open>Identifiers out of range\<close>

text \<open>
  Claim C10, as stated, fails: with 3 entities and 1 relation, a training triple
  \<open>(7, 0, 9)\<close> and a validation triple \<open>(0, 5, 0)\<close> are accepted. Construction succeeds, the
  indexes hold the identifiers as given, and the relation is classified from them.
\<close>

theorem Dataset_init_range_check_counterexample:
  "\<not> isl (Dataset_init [] 3 [] 1 [[]] [(7, 0, 9)] [] [(0, 5, 0)] [] [] []) \<and>
   map_sum id (\<lambda>d. fst (index_1toN d ''train'' ''sp''))
       (Dataset_init [] 3 [] 1 [[]] [(7, 0, 9)] [] [(0, 5, 0)] [] [] []) =
     Inr (Inr (Some [((7, 0), [9])])) \<and>
   map_sum id (\<lambda>d. fst (index_1toN d ''valid'' ''po''))
       (Dataset_init [] 3 [] 1 [[]] [(7, 0, 9)] [] [(0, 5, 0)] [] [] []) =
     Inr (Inr (Some [((5, 0), [0])])) \<and>
   map_sum id relation_types (Dataset_init [] 3 [] 1 [[]] [(7, 0, 9)] [] [(0, 5, 0)] [] [] []) =
     Inr [(0, ''M-N'')]"
  by code_simp

text \<open>
  Claim C10, amended to what the code does: no identifier is compared with \<^verbatim>\<open>num_entities\<close>
  or \<^verbatim>\<open>num_relations\<close>. Construction fails, with the \<^verbatim>\<open>IndexError\<close> of tensor indexing,
  exactly when the predicate of some training triple indexes no row of the
  \<open>(num_relations, 6)\<close> table (it is at least \<^verbatim>\<open>num_relations\<close>, or below its negation) or
  when there are more relations than rows; otherwise it succeeds, whatever the subjects,
  the objects and the other splits hold.
\<close>

theorem Dataset_init_range_check:
  "if (\<exists>t \<in> set trn. tensor_row n (col 1 t) = None) \<or> n < length rels
   then Dataset_init cfg ne ents n rels trn trn_meta vld vld_meta tst tst_meta = Inl IndexError
   else (\<exists>d. Dataset_init cfg ne ents n rels trn trn_meta vld vld_meta tst tst_meta = Inr d)"
proof (cases "(\<exists>t \<in> set trn. tensor_row n (col 1 t) = None) \<or> n < length rels")
  case True
  then have "Dataset_init cfg ne ents n rels trn trn_meta vld vld_meta tst tst_meta = Inl IndexError"
    by (rule Dataset_init_fails)
  with True show ?thesis by (simp only: if_True)
next
  case False
  then have "\<forall>t \<in> set trn. tensor_row n (col 1 t) \<noteq> None" and "length rels \<le> n"
    by auto
  from Dataset_init_succeeds [OF this, of cfg ne ents trn_meta vld vld_meta tst tst_meta]
  have "\<exists>d. Dataset_init cfg ne ents n rels trn trn_meta vld vld_meta tst tst_meta = Inr d"
    by blast
  with False show ?thesis by (simp only: if_False)
qed

text \<open>
  Claim C10 at a training predicate out of range, at a relation list longer than the table,
  and at entity identifiers out of range.
\<close>

theorem Dataset_init_range_check_witness:
  "Dataset_init [] 3 [] 1 [[]] [(0, 1, 0)] [] [] [] [] [] = Inl IndexError \<and>
   Dataset_init [] 3 [] 1 [[], []] [(0, 0, 1)] [] [] [] [] [] = Inl IndexError \<and>
   (\<exists>d. Dataset_init [] 3 [] 1 [[]] [(7, 0, 9)] [] [(0, 5, 0)] [] [] [] = Inr d)"
  using Dataset_init_range_check [of "[(0, 1, 0)]" 1 "[[]]" "[]" 3 "[]" "[]" "[]" "[]" "[]" "[]"]
    Dataset_init_range_check [of "[(0, 0, 1)]" 1 "[[], []]" "[]" 3 "[]" "[]" "[]" "[]" "[]" "[]"]
    Dataset_init_range_check [of "[(7, 0, 9)]" 1 "[[]]" "[]" 3 "[]" "[]" "[(0, 5, 0)]" "[]" "[]" "[]"]
  by (simp add: tensor_row_def)

end
